theory Spec2Isabelle
  imports Main
begin

section \<open>Data model\<close>

text \<open>
  The two model classes of \<^verbatim>\<open>app.py\<close>. Their constructors take the columns of a row in
  the order of the schema (\<^verbatim>\<open>User(*row)\<close>, \<^verbatim>\<open>Note(*row)\<close>). The attribute \<^verbatim>\<open>id\<close> is
  written \<open>id_user\<close> and \<open>id_note\<close>, since \<open>id\<close> is the identity function of HOL.
\<close>

datatype User = User (id_user: int) (username: string) (email: string) (password_hash: string)

datatype Note = Note (id_note: int) (title: string) (content: string) (user_id: int)

text \<open>
  The relational store as \<^verbatim>\<open>init_db\<close> creates it: the tables \<^verbatim>\<open>users\<close> and \<^verbatim>\<open>notes\<close> in
  insertion order, and the two sequences behind the \<^verbatim>\<open>SERIAL\<close> keys, each holding the
  value the next insert receives.
\<close>

record database =
  users_tbl :: "User list"
  notes_tbl :: "Note list"
  users_id_seq :: int
  notes_id_seq :: int

definition init_db :: database where
  "init_db = \<lparr>users_tbl = [], notes_tbl = [], users_id_seq = 1, notes_id_seq = 1\<rparr>"

text \<open>
  A connection of the driver: the committed state, the state the open transaction works
  on, and whether \<^verbatim>\<open>conn.close()\<close> has been called.
\<close>

record connection =
  durable :: database
  work :: database
  closed :: bool
  broken :: bool

text \<open>
  JSON values: the bodies handed to \<^verbatim>\<open>jsonify\<close>, and the elements of a list that a
  request carries.
\<close>

datatype json =
  JNull
  | JBool bool
  | JStr string
  | JInt int
  | JList "json list"
  | JObj "(string \<times> json) list"

text \<open>
  What \<^verbatim>\<open>request.get_json()\<close> returned, any JSON value: \<^verbatim>\<open>None\<close>, a boolean, a number, a
  string, a list, or a dict, given as the list of its items and read with \<open>map_of\<close>. A
  number is an integer here; a float meets the same branches (false when zero, not
  iterable, not subscriptable). The members of a dict are strings, the type of every
  column a body feeds; members of other JSON types are outside this model, and so is a
  call of \<^verbatim>\<open>get_json()\<close> that raises by itself.
\<close>

datatype body =
  BNull
  | BBool bool
  | BNum int
  | BStr string
  | BArr "json list"
  | BObj "(string \<times> string) list"

datatype exn =
  KeyError string
  | TypeError string
  | IntegrityError string
  | OperationalError string
  | ProgrammingError string
  | InterfaceError string

fun str_exn :: "exn \<Rightarrow> string" where
  "str_exn (KeyError k) = [CHR 0x27] @ k @ [CHR 0x27]"
| "str_exn (TypeError m) = m"
| "str_exn (IntegrityError m) = m"
| "str_exn (OperationalError m) = m"
| "str_exn (ProgrammingError m) = m"
| "str_exn (InterfaceError m) = m"

text \<open>
  A handler either returns a status and a body, or an exception leaves it. \<open>outcome\<close>
  adds what the request leaves behind: the state of the store that later requests see,
  the session, and whether a connection the handler opened is still open.
\<close>

datatype result = Response nat json | Raised exn

record outcome =
  result :: result
  db_after :: database
  session_after :: "int option"
  conn_open :: bool

fun status_of :: "result \<Rightarrow> nat option" where
  "status_of (Response s b) = Some s"
| "status_of (Raised e) = None"

section \<open>Python on the request body\<close>

text \<open>\<^verbatim>\<open>not data\<close>: the values Python takes for false.\<close>

fun falsy :: "body \<Rightarrow> bool" where
  "falsy BNull = True"
| "falsy (BBool b) = (\<not> b)"
| "falsy (BNum n) = (n = 0)"
| "falsy (BStr s) = (s = [])"
| "falsy (BArr xs) = (xs = [])"
| "falsy (BObj d) = (d = [])"

text \<open>\<^verbatim>\<open>k in s\<close> on two strings: \<open>k\<close> occurs in \<open>s\<close>.\<close>

fun substring :: "string \<Rightarrow> string \<Rightarrow> bool" where
  "substring k [] = (k = [])"
| "substring k (c # cs) = (take (length k) (c # cs) = k \<or> substring k cs)"

text \<open>
  \<^verbatim>\<open>k in data\<close> for a string \<open>k\<close>: a key of a dict, an element of a list, a part of a
  string; \<^verbatim>\<open>TypeError\<close> on a value that is not iterable. The texts of the \<^verbatim>\<open>TypeError\<close>s
  are shortened: the interpreter quotes the type names.
\<close>

fun contains :: "string \<Rightarrow> body \<Rightarrow> exn + bool" where
  "contains k (BObj d) = Inr (map_of d k \<noteq> None)"
| "contains k (BArr xs) = Inr (JStr k \<in> set xs)"
| "contains k (BStr s) = Inr (substring k s)"
| "contains k BNull = Inl (TypeError ''argument of type NoneType is not iterable'')"
| "contains k (BBool b) = Inl (TypeError ''argument of type bool is not iterable'')"
| "contains k (BNum n) = Inl (TypeError ''argument of type int is not iterable'')"

text \<open>
  \<^verbatim>\<open>all(k in data for k in ks)\<close>: left to right, stopping at the first key that is not in
  \<open>data\<close> and at the first exception.
\<close>

fun all_in :: "string list \<Rightarrow> body \<Rightarrow> exn + bool" where
  "all_in [] data = Inr True"
| "all_in (k # ks) data =
     (case contains k data of
        Inl x \<Rightarrow> Inl x
      | Inr b \<Rightarrow> if b then all_in ks data else Inr False)"

text \<open>The body is a dict that has the key \<open>k\<close>.\<close>

fun has_key :: "string \<Rightarrow> body \<Rightarrow> bool" where
  "has_key k (BObj d) = (map_of d k \<noteq> None)"
| "has_key k BNull = False"
| "has_key k (BBool b) = False"
| "has_key k (BNum n) = False"
| "has_key k (BStr s) = False"
| "has_key k (BArr xs) = False"

text \<open>\<^verbatim>\<open>data[k]\<close> for a string \<open>k\<close>.\<close>

fun getitem :: "body \<Rightarrow> string \<Rightarrow> exn + string" where
  "getitem (BObj d) k = (case map_of d k of None \<Rightarrow> Inl (KeyError k) | Some v \<Rightarrow> Inr v)"
| "getitem BNull k = Inl (TypeError ''NoneType object is not subscriptable'')"
| "getitem (BBool b) k = Inl (TypeError ''bool object is not subscriptable'')"
| "getitem (BNum n) k = Inl (TypeError ''int object is not subscriptable'')"
| "getitem (BStr s) k = Inl (TypeError ''string indices must be integers'')"
| "getitem (BArr xs) k = Inl (TypeError ''list indices must be integers or slices, not str'')"

section \<open>The driver\<close>

definition get_db :: "database \<Rightarrow> connection" where
  "get_db db = \<lparr>durable = db, work = db, closed = False, broken = False\<rparr>"

text \<open>
  The faults of the backend, at the \<open>k\<close>-th \<^verbatim>\<open>cur.execute\<close> of the request (counted from
  0). \<open>Lost k\<close>: the server closes the connection; the call raises and the connection
  is unusable from then on. \<open>Refused k\<close>: the server refuses the statement (a missing
  table, a timeout); the call raises, nothing changes and the connection stays usable.
\<close>

datatype failure = Lost nat | Refused nat

definition fault :: exn where
  "fault = OperationalError ''server closed the connection''"

definition refused :: exn where
  "refused = ProgrammingError ''statement refused''"

definition conn_gone :: exn where
  "conn_gone = InterfaceError ''connection already closed''"

text \<open>
  A statement maps the state of the transaction to the new state and to its rows or its
  error.
\<close>

definition execute ::
  "failure option \<Rightarrow> nat \<Rightarrow> (database \<Rightarrow> database \<times> (exn + 'r)) \<Rightarrow> connection
     \<Rightarrow> connection \<times> (exn + 'r)" where
  "execute flt k stmt c =
     (if flt = Some (Lost k) then (c\<lparr>broken := True\<rparr>, Inl fault)
      else if flt = Some (Refused k) then (c, Inl refused)
      else (c\<lparr>work := fst (stmt (work c))\<rparr>, snd (stmt (work c))))"

text \<open>
  \<^verbatim>\<open>conn.commit()\<close>. The handlers reach it only after every statement succeeded, on a
  usable connection.
\<close>

definition commit :: "connection \<Rightarrow> connection" where
  "commit c = c\<lparr>durable := work c\<rparr>"

text \<open>Sequences are not transactional: a value handed out is not taken back.\<close>

definition keep_seqs :: "database \<Rightarrow> database \<Rightarrow> database" where
  "keep_seqs w d = d\<lparr>users_id_seq := users_id_seq w, notes_id_seq := notes_id_seq w\<rparr>"

text \<open>\<^verbatim>\<open>conn.rollback()\<close>: it raises on a connection the server has closed.\<close>

definition rollback :: "connection \<Rightarrow> exn + connection" where
  "rollback c =
     (if broken c then Inl conn_gone else Inr (c\<lparr>work := keep_seqs (work c) (durable c)\<rparr>))"

definition close_conn :: "connection \<Rightarrow> connection" where
  "close_conn c = c\<lparr>closed := True\<rparr>"

text \<open>What later requests see: the committed tables; uncommitted work is discarded.\<close>

definition visible :: "connection \<Rightarrow> database" where
  "visible c = keep_seqs (work c) (durable c)"

definition leave :: "int option \<Rightarrow> connection \<times> result \<Rightarrow> outcome" where
  "leave sess cr =
     \<lparr>result = snd cr, db_after = visible (fst cr), session_after = sess,
      conn_open = (\<not> closed (fst cr))\<rparr>"

text \<open>The \<^verbatim>\<open>finally\<close> block of the handlers: \<^verbatim>\<open>cur.close(); conn.close()\<close>.\<close>

definition finally_close :: "int option \<Rightarrow> connection \<times> result \<Rightarrow> outcome" where
  "finally_close sess cr = leave sess (close_conn (fst cr), snd cr)"

text \<open>A return before any connection is opened.\<close>

definition no_conn :: "int option \<Rightarrow> database \<Rightarrow> result \<Rightarrow> outcome" where
  "no_conn sess db r = \<lparr>result = r, db_after = db, session_after = sess, conn_open = False\<rparr>"

section \<open>The SQL statements\<close>

text \<open>\<^verbatim>\<open>SELECT id FROM users WHERE email=%s OR username=%s\<close>\<close>

definition select_existing_user ::
  "string \<Rightarrow> string \<Rightarrow> database \<Rightarrow> database \<times> (exn + int list)" where
  "select_existing_user e n db =
     (db, Inr (map id_user (filter (\<lambda>u. email u = e \<or> username u = n) (users_tbl db))))"

text \<open>
  \<^verbatim>\<open>INSERT INTO users (username, email, password_hash) VALUES (%s, %s, %s)\<close>, under the
  primary key and the two \<^verbatim>\<open>UNIQUE\<close> constraints of the schema.
\<close>

definition insert_user ::
  "string \<Rightarrow> string \<Rightarrow> string \<Rightarrow> database \<Rightarrow> database \<times> (exn + unit)" where
  "insert_user n e h db =
     (let i = users_id_seq db; db1 = db\<lparr>users_id_seq := i + 1\<rparr> in
      if i \<in> set (map id_user (users_tbl db)) then (db1, Inl (IntegrityError ''users_pkey''))
      else if n \<in> set (map username (users_tbl db))
        then (db1, Inl (IntegrityError ''users_username_key''))
      else if e \<in> set (map email (users_tbl db))
        then (db1, Inl (IntegrityError ''users_email_key''))
      else (db1\<lparr>users_tbl := users_tbl db @ [User i n e h]\<rparr>, Inr ()))"

text \<open>\<^verbatim>\<open>SELECT id, username, email, password_hash FROM users WHERE email=%s\<close>\<close>

definition select_user_by_email :: "string \<Rightarrow> database \<Rightarrow> database \<times> (exn + User list)" where
  "select_user_by_email e db = (db, Inr (filter (\<lambda>u. email u = e) (users_tbl db)))"

text \<open>
  \<^verbatim>\<open>INSERT INTO notes (title, content, user_id) VALUES (%s, %s, %s)\<close>, under the primary
  key and the foreign key \<^verbatim>\<open>user_id REFERENCES users(id)\<close>.
\<close>

definition insert_note ::
  "string \<Rightarrow> string \<Rightarrow> int \<Rightarrow> database \<Rightarrow> database \<times> (exn + unit)" where
  "insert_note t c uid db =
     (let i = notes_id_seq db; db1 = db\<lparr>notes_id_seq := i + 1\<rparr> in
      if i \<in> set (map id_note (notes_tbl db)) then (db1, Inl (IntegrityError ''notes_pkey''))
      else if uid \<notin> set (map id_user (users_tbl db))
        then (db1, Inl (IntegrityError ''notes_user_id_fkey''))
      else (db1\<lparr>notes_tbl := notes_tbl db @ [Note i t c uid]\<rparr>, Inr ()))"

text \<open>
  \<^verbatim>\<open>SELECT id, title, content, user_id FROM notes WHERE user_id=%s ORDER BY id DESC\<close>
\<close>

definition select_notes_of :: "int \<Rightarrow> database \<Rightarrow> database \<times> (exn + Note list)" where
  "select_notes_of uid db =
     (db, Inr (rev (sort_key id_note (filter (\<lambda>n. user_id n = uid) (notes_tbl db)))))"

text \<open>
  \<^verbatim>\<open>UPDATE notes SET title=%s, content=%s WHERE id=%s AND user_id=%s RETURNING id\<close>
\<close>

definition update_notes ::
  "string \<Rightarrow> string \<Rightarrow> int \<Rightarrow> int \<Rightarrow> database \<Rightarrow> database \<times> (exn + int list)" where
  "update_notes t c nid uid db =
     (db\<lparr>notes_tbl :=
          map (\<lambda>n. if id_note n = nid \<and> user_id n = uid then Note (id_note n) t c (user_id n) else n)
            (notes_tbl db)\<rparr>,
      Inr (map id_note (filter (\<lambda>n. id_note n = nid \<and> user_id n = uid) (notes_tbl db))))"

text \<open>\<^verbatim>\<open>DELETE FROM notes WHERE id=%s AND user_id=%s RETURNING id\<close>\<close>

definition delete_notes :: "int \<Rightarrow> int \<Rightarrow> database \<Rightarrow> database \<times> (exn + int list)" where
  "delete_notes nid uid db =
     (db\<lparr>notes_tbl := filter (\<lambda>n. \<not> (id_note n = nid \<and> user_id n = uid)) (notes_tbl db)\<rparr>,
      Inr (map id_note (filter (\<lambda>n. id_note n = nid \<and> user_id n = uid) (notes_tbl db))))"

text \<open>\<^verbatim>\<open>SELECT id, title, content FROM notes WHERE id=%s AND user_id=%s\<close>\<close>

definition select_note ::
  "int \<Rightarrow> int \<Rightarrow> database \<Rightarrow> database \<times> (exn + (int \<times> string \<times> string) list)" where
  "select_note nid uid db =
     (db, Inr (map (\<lambda>n. (id_note n, title n, content n))
                 (filter (\<lambda>n. id_note n = nid \<and> user_id n = uid) (notes_tbl db))))"

text \<open>\<^verbatim>\<open>SELECT tablename FROM pg_tables WHERE schemaname='public'\<close>\<close>

definition select_tables :: "database \<Rightarrow> database \<times> (exn + string list)" where
  "select_tables db = (db, Inr [''users'', ''notes''])"

text \<open>\<^verbatim>\<open>cur.fetchone()\<close>: the first row, or \<^verbatim>\<open>None\<close>.\<close>

definition fetchone :: "'r list \<Rightarrow> 'r option" where
  "fetchone rows = (case rows of [] \<Rightarrow> None | r # _ \<Rightarrow> Some r)"

section \<open>The handlers\<close>

definition err :: "string \<Rightarrow> json" where
  "err m = JObj [(''error'', JStr m)]"

definition msg :: "string \<Rightarrow> json" where
  "msg m = JObj [(''message'', JStr m)]"

definition note_json :: "int \<Rightarrow> string \<Rightarrow> string \<Rightarrow> json" where
  "note_json i t c = JObj [(''id'', JInt i), (''title'', JStr t), (''content'', JStr c)]"

text \<open>The object \<^verbatim>\<open>get_notes\<close> builds for one note.\<close>

definition note_row :: "Note \<Rightarrow> json" where
  "note_row n = note_json (id_note n) (title n) (content n)"

text \<open>
  The \<^verbatim>\<open>except\<close> block of \<^verbatim>\<open>register\<close>: \<^verbatim>\<open>conn.rollback()\<close>, then status 500 with the text
  of the exception. When the rollback raises, that exception leaves the handler.
\<close>

definition except_rollback :: "connection \<Rightarrow> exn \<Rightarrow> connection \<times> result" where
  "except_rollback c x =
     (case rollback c of
        Inl y \<Rightarrow> (c, Raised y)
      | Inr c' \<Rightarrow> (c', Response 500 (err (str_exn x))))"

text \<open>
  \<^verbatim>\<open>POST /register\<close>. \<open>gen salt\<close> is \<^verbatim>\<open>generate_password_hash\<close> at the salt it draws. The
  check of the input and the hashing stand in front of the \<^verbatim>\<open>try\<close>, before the connection
  is opened: what they raise leaves the handler. Everything raised inside the \<^verbatim>\<open>try\<close> is
  caught by the \<^verbatim>\<open>except\<close> block.
\<close>

definition register ::
  "(string \<Rightarrow> string \<Rightarrow> string) \<Rightarrow> string \<Rightarrow> failure option \<Rightarrow> int option \<Rightarrow> body
     \<Rightarrow> database \<Rightarrow> outcome" where
  "register gen salt flt sess data db =
     (if falsy data then no_conn sess db (Response 400 (err ''Invalid input''))
      else
        (case all_in [''username'', ''email'', ''password''] data of
           Inl x \<Rightarrow> no_conn sess db (Raised x)
         | Inr ok \<Rightarrow>
            if \<not> ok then no_conn sess db (Response 400 (err ''Invalid input''))
            else
              (case getitem data ''password'' of
                 Inl x \<Rightarrow> no_conn sess db (Raised x)
               | Inr p \<Rightarrow>
                  (case (getitem data ''email'', getitem data ''username'') of
                     (Inr e, Inr n) \<Rightarrow>
                       finally_close sess
                         (case execute flt 0 (select_existing_user e n) (get_db db) of
                            (c1, Inl x) \<Rightarrow> except_rollback c1 x
                          | (c1, Inr rows) \<Rightarrow>
                             if fetchone rows \<noteq> None
                             then (c1, Response 400 (err ''User already exists''))
                             else
                               (case execute flt 1 (insert_user n e (gen salt p)) c1 of
                                  (c2, Inl x) \<Rightarrow> except_rollback c2 x
                                | (c2, Inr _) \<Rightarrow>
                                    (commit c2, Response 201 (msg ''registered''))))
                   | (Inl x, _) \<Rightarrow> finally_close sess (except_rollback (get_db db) x)
                   | (_, Inl x) \<Rightarrow> finally_close sess (except_rollback (get_db db) x)))))"

text \<open>
  \<^verbatim>\<open>POST /login\<close>. \<open>check\<close> is \<^verbatim>\<open>check_password_hash\<close>. The check of the input stands in
  front of the connection. There is no \<^verbatim>\<open>except\<close>: what is raised inside the \<^verbatim>\<open>try\<close>
  leaves the handler, after the \<^verbatim>\<open>finally\<close> block.
\<close>

definition login ::
  "(string \<Rightarrow> string \<Rightarrow> bool) \<Rightarrow> failure option \<Rightarrow> int option \<Rightarrow> body \<Rightarrow> database
     \<Rightarrow> outcome" where
  "login check flt sess data db =
     (if falsy data then no_conn sess db (Response 400 (err ''Invalid input''))
      else
        (case all_in [''email'', ''password''] data of
           Inl x \<Rightarrow> no_conn sess db (Raised x)
         | Inr ok \<Rightarrow>
            if \<not> ok then no_conn sess db (Response 400 (err ''Invalid input''))
            else
              (case getitem data ''email'' of
                 Inl x \<Rightarrow> finally_close sess (get_db db, Raised x)
               | Inr e \<Rightarrow>
                  (case execute flt 0 (select_user_by_email e) (get_db db) of
                     (c1, Inl x) \<Rightarrow> finally_close sess (c1, Raised x)
                   | (c1, Inr rows) \<Rightarrow>
                      (case fetchone rows of
                         None \<Rightarrow>
                           finally_close sess (c1, Response 401 (err ''Invalid credentials''))
                       | Some row \<Rightarrow>
                          (case getitem data ''password'' of
                             Inl x \<Rightarrow> finally_close sess (c1, Raised x)
                           | Inr p \<Rightarrow>
                              if \<not> check (password_hash row) p
                              then finally_close sess
                                     (c1, Response 401 (err ''Invalid credentials''))
                              else finally_close (Some (id_user row))
                                     (c1, Response 200 (msg ''logged in''))))))))"

text \<open>\<^verbatim>\<open>POST /logout\<close>\<close>

definition logout :: "int option \<Rightarrow> database \<Rightarrow> outcome" where
  "logout sess db = no_conn None db (Response 200 (msg ''logged out''))"

text \<open>
  \<^verbatim>\<open>POST /notes\<close>. The parameter tuple is built inside the \<^verbatim>\<open>try\<close>, left to right.
\<close>

definition create_note :: "failure option \<Rightarrow> int option \<Rightarrow> body \<Rightarrow> database \<Rightarrow> outcome" where
  "create_note flt sess data db =
     (case sess of
        None \<Rightarrow> no_conn sess db (Response 401 (err ''Unauthorized''))
      | Some uid \<Rightarrow>
          finally_close sess
            (case getitem data ''title'' of
               Inl x \<Rightarrow> (get_db db, Raised x)
             | Inr t \<Rightarrow>
                (case getitem data ''content'' of
                   Inl x \<Rightarrow> (get_db db, Raised x)
                 | Inr c \<Rightarrow>
                    (case execute flt 0 (insert_note t c uid) (get_db db) of
                       (c1, Inl x) \<Rightarrow> (c1, Raised x)
                     | (c1, Inr _) \<Rightarrow> (commit c1, Response 201 (msg ''note created''))))))"

text \<open>\<^verbatim>\<open>GET /notes\<close>\<close>

definition get_notes :: "failure option \<Rightarrow> int option \<Rightarrow> database \<Rightarrow> outcome" where
  "get_notes flt sess db =
     (case sess of
        None \<Rightarrow> no_conn sess db (Response 200 (JList []))
      | Some uid \<Rightarrow>
          finally_close sess
            (case execute flt 0 (select_notes_of uid) (get_db db) of
               (c1, Inl x) \<Rightarrow> (c1, Raised x)
             | (c1, Inr rows) \<Rightarrow>
                (c1, Response 200 (JList (map note_row rows)))))"

text \<open>\<^verbatim>\<open>PUT /notes/<int:note_id>\<close>\<close>

definition update_note ::
  "failure option \<Rightarrow> int option \<Rightarrow> int \<Rightarrow> body \<Rightarrow> database \<Rightarrow> outcome" where
  "update_note flt sess note_id data db =
     (case sess of
        None \<Rightarrow> no_conn sess db (Response 401 (err ''Unauthorized''))
      | Some uid \<Rightarrow>
          finally_close sess
            (case getitem data ''title'' of
               Inl x \<Rightarrow> (get_db db, Raised x)
             | Inr t \<Rightarrow>
                (case getitem data ''content'' of
                   Inl x \<Rightarrow> (get_db db, Raised x)
                 | Inr c \<Rightarrow>
                    (case execute flt 0 (update_notes t c note_id uid) (get_db db) of
                       (c1, Inl x) \<Rightarrow> (c1, Raised x)
                     | (c1, Inr rows) \<Rightarrow>
                        if fetchone rows = None then (c1, Response 404 (err ''Not found''))
                        else (commit c1, Response 200 (msg ''updated''))))))"

text \<open>\<^verbatim>\<open>DELETE /notes/<int:note_id>\<close>\<close>

definition delete_note :: "failure option \<Rightarrow> int option \<Rightarrow> int \<Rightarrow> database \<Rightarrow> outcome" where
  "delete_note flt sess note_id db =
     (case sess of
        None \<Rightarrow> no_conn sess db (Response 401 (err ''Unauthorized''))
      | Some uid \<Rightarrow>
          finally_close sess
            (case execute flt 0 (delete_notes note_id uid) (get_db db) of
               (c1, Inl x) \<Rightarrow> (c1, Raised x)
             | (c1, Inr rows) \<Rightarrow>
                if fetchone rows = None then (c1, Response 404 (err ''Not found''))
                else (commit c1, Response 200 (msg ''deleted''))))"

text \<open>\<^verbatim>\<open>GET /notes/<int:note_id>\<close>\<close>

definition get_single_note :: "failure option \<Rightarrow> int option \<Rightarrow> int \<Rightarrow> database \<Rightarrow> outcome" where
  "get_single_note flt sess note_id db =
     (case sess of
        None \<Rightarrow> no_conn sess db (Response 401 (err ''Unauthorized''))
      | Some uid \<Rightarrow>
          finally_close sess
            (case execute flt 0 (select_note note_id uid) (get_db db) of
               (c1, Inl x) \<Rightarrow> (c1, Raised x)
             | (c1, Inr rows) \<Rightarrow>
                (case fetchone rows of
                   None \<Rightarrow> (c1, Response 404 (err ''Not found''))
                 | Some (i, t, c) \<Rightarrow> (c1, Response 200 (note_json i t c)))))"

text \<open>\<^verbatim>\<open>GET /\<close>\<close>

definition health :: "int option \<Rightarrow> database \<Rightarrow> outcome" where
  "health sess db = no_conn sess db (Response 200 (JObj [(''status'', JStr ''ok'')]))"

text \<open>
  \<^verbatim>\<open>GET /list-tables\<close>. The handler has no \<^verbatim>\<open>try\<close>: when \<^verbatim>\<open>cur.execute\<close> raises, the two
  \<^verbatim>\<open>close()\<close> calls are not reached. Each row of \<^verbatim>\<open>fetchall()\<close> is a tuple of one name.
\<close>

definition list_tables :: "failure option \<Rightarrow> int option \<Rightarrow> database \<Rightarrow> outcome" where
  "list_tables flt sess db =
     (case execute flt 0 select_tables (get_db db) of
        (c1, Inl x) \<Rightarrow> leave sess (c1, Raised x)
      | (c1, Inr tables) \<Rightarrow>
          leave sess (close_conn c1, Response 200 (JList (map (\<lambda>t. JList [JStr t]) tables))))"

section \<open>The constraints of the schema\<close>

text \<open>
  Primary keys and \<^verbatim>\<open>UNIQUE\<close> columns hold distinct values, every key handed out is
  below its sequence, and every note points to a row of \<^verbatim>\<open>users\<close>.
\<close>

definition wf_db :: "database \<Rightarrow> bool" where
  "wf_db db =
     (distinct (map id_user (users_tbl db))
      \<and> distinct (map username (users_tbl db))
      \<and> distinct (map email (users_tbl db))
      \<and> distinct (map id_note (notes_tbl db))
      \<and> list_all (\<lambda>u. id_user u < users_id_seq db) (users_tbl db)
      \<and> list_all (\<lambda>n. id_note n < notes_id_seq db) (notes_tbl db)
      \<and> list_all (\<lambda>n. user_id n \<in> set (map id_user (users_tbl db))) (notes_tbl db))"


section \<open>Request bodies and sample data\<close>

text \<open>
  The bodies the API documents, a store with two users and three notes, and a pair of
  hashing functions that keeps two characters of salt in front of the password: a
  generated hash verifies for the password it was generated from and for no other.
\<close>

definition demo_gen :: "string \<Rightarrow> string \<Rightarrow> string" where
  "demo_gen salt pw = take 2 (salt @ ''..'') @ pw"

definition demo_check :: "string \<Rightarrow> string \<Rightarrow> bool" where
  "demo_check h pw = (drop 2 h = pw)"

definition demo_db :: database where
  "demo_db =
     \<lparr>users_tbl = [User 1 ''alice'' ''a@x.com'' (demo_gen ''s1'' ''pw1''),
                   User 2 ''bob'' ''b@x.com'' (demo_gen ''s2'' ''pw2'')],
      notes_tbl = [Note 1 ''T1'' ''C1'' 1, Note 2 ''T2'' ''C2'' 2, Note 3 ''T3'' ''C3'' 1],
      users_id_seq = 3, notes_id_seq = 4\<rparr>"

definition note_body :: "string \<Rightarrow> string \<Rightarrow> body" where
  "note_body t c = BObj [(''title'', t), (''content'', c)]"

definition user_body :: "string \<Rightarrow> string \<Rightarrow> string \<Rightarrow> body" where
  "user_body n e p = BObj [(''username'', n), (''email'', e), (''password'', p)]"

definition login_body :: "string \<Rightarrow> string \<Rightarrow> body" where
  "login_body e p = BObj [(''email'', e), (''password'', p)]"

section \<open>Helper facts\<close>

lemmas driver_defs = execute_def get_db_def commit_def rollback_def except_rollback_def
  close_conn_def visible_def leave_def finally_close_def no_conn_def keep_seqs_def fetchone_def

lemmas demo_defs = demo_db_def demo_gen_def demo_check_def note_body_def user_body_def
  login_body_def

lemma getitem_InrD: "getitem data k = Inr v \<Longrightarrow> \<exists>d. data = BObj d \<and> map_of d k = Some v"
  by (cases data) (auto split: option.splits)

lemma has_keyD: "has_key k data \<Longrightarrow> \<exists>d v. data = BObj d \<and> map_of d k = Some v"
  by (cases data) auto

lemma has_key_getitem: "has_key k data \<Longrightarrow> \<exists>v. getitem data k = Inr v"
  by (cases data) auto


lemma has_key_truthy: "has_key k data \<Longrightarrow> \<not> falsy data"
  by (cases data) auto

lemma has_key_contains: "has_key k data \<Longrightarrow> contains k data = Inr True"
  by (cases data) auto

lemma register_guard:
  assumes "has_key ''username'' data" "has_key ''email'' data" "has_key ''password'' data"
  shows "\<not> falsy data" and "all_in [''username'', ''email'', ''password''] data = Inr True"
  using assms by (simp_all add: has_key_truthy has_key_contains)


lemma distinct_key_unique:
  "distinct (map f xs) \<Longrightarrow> x \<in> set xs \<Longrightarrow> y \<in> set xs \<Longrightarrow> f x = f y \<Longrightarrow> x = y"
  by (meson distinct_map inj_on_def)

lemma map_unchanged: "(\<forall>x\<in>set xs. \<not> P x) \<Longrightarrow> map (\<lambda>x. if P x then g x else x) xs = xs"
  by (induction xs) auto

lemma delete_no_match:
  assumes "\<forall>m\<in>set (notes_tbl db). \<not> (id_note m = nid \<and> user_id m = uid)"
  shows "result (delete_note None (Some uid) nid db) = Response 404 (err ''Not found'')"
    and "db_after (delete_note flt (Some uid) nid db) = db"
  using assms by (simp_all add: delete_note_def driver_defs delete_notes_def)

lemma update_no_match:
  assumes "\<forall>m\<in>set (notes_tbl db). \<not> (id_note m = nid \<and> user_id m = uid)"
  shows "getitem data ''title'' = Inr t \<Longrightarrow> getitem data ''content'' = Inr c \<Longrightarrow>
         result (update_note None (Some uid) nid data db) = Response 404 (err ''Not found'')"
    and "db_after (update_note flt (Some uid) nid data db) = db"
  using assms
  by (simp_all add: update_note_def driver_defs update_notes_def map_unchanged split: sum.splits)

lemma foreign_no_match:
  assumes "distinct (map id_note (notes_tbl db))" "n \<in> set (notes_tbl db)" "user_id n \<noteq> uid"
  shows "\<forall>m\<in>set (notes_tbl db). \<not> (id_note m = id_note n \<and> user_id m = uid)"
  using assms distinct_key_unique [of id_note "notes_tbl db"] by blast

lemma insort_key_snoc:
  "f x \<le> f a \<Longrightarrow> insort_key f x (ys @ [a]) = insort_key f x ys @ [a]"
  by (induction ys) auto

lemma sort_key_snoc:
  "\<forall>x\<in>set xs. f x \<le> f a \<Longrightarrow> sort_key f (xs @ [a]) = sort_key f xs @ [a]"
  by (induction xs) (auto simp: insort_key_snoc)

lemma sorted_desc_rev_sort_key:
  assumes "distinct (map f xs)"
  shows "sorted_wrt (\<lambda>a b. f a > f b) (rev (sort_key f xs))"
proof -
  have "distinct (map f (sort_key f xs))"
    using assms by (simp add: distinct_map)
  moreover have "sorted (map f (sort_key f xs))"
    by (rule sorted_sort_key)
  ultimately have "sorted_wrt (<) (map f (sort_key f xs))"
    by (simp add: strict_sorted_iff)
  then show ?thesis
    by (simp add: sorted_wrt_rev sorted_wrt_map)
qed

lemma get_notes_result:
  "result (get_notes None (Some uid) db)
     = Response 200 (JList (map note_row
         (rev (sort_key id_note (filter (\<lambda>n. user_id n = uid) (notes_tbl db))))))"
  by (simp add: get_notes_def driver_defs select_notes_of_def note_row_def)

lemma create_note_stores:
  assumes "list_all (\<lambda>n. id_note n < notes_id_seq db) (notes_tbl db)"
    and "uid \<in> set (map id_user (users_tbl db))"
  shows "db_after (create_note None (Some uid) (note_body t c) db)
     = db\<lparr>notes_tbl := notes_tbl db @ [Note (notes_id_seq db) t c uid],
          notes_id_seq := notes_id_seq db + 1\<rparr>"
    and "result (create_note None (Some uid) (note_body t c) db) = Response 201 (msg ''note created'')"
proof -
  have "notes_id_seq db \<notin> set (map id_note (notes_tbl db))"
    using assms(1) by (auto simp: list_all_iff)
  then show "db_after (create_note None (Some uid) (note_body t c) db)
     = db\<lparr>notes_tbl := notes_tbl db @ [Note (notes_id_seq db) t c uid],
          notes_id_seq := notes_id_seq db + 1\<rparr>"
    and "result (create_note None (Some uid) (note_body t c) db) = Response 201 (msg ''note created'')"
    using assms(2)
    by (simp_all add: create_note_def driver_defs insert_note_def Let_def note_body_def)
qed




lemma register_fresh:
  assumes "\<forall>u\<in>set (users_tbl db). email u \<noteq> e \<and> username u \<noteq> n"
    and "list_all (\<lambda>u. id_user u < users_id_seq db) (users_tbl db)"
  shows "register gen salt None sess (user_body n e p) db =
     \<lparr>result = Response 201 (msg ''registered''),
      db_after = db\<lparr>users_tbl := users_tbl db @ [User (users_id_seq db) n e (gen salt p)],
                    users_id_seq := users_id_seq db + 1\<rparr>,
      session_after = sess, conn_open = False\<rparr>"
proof -
  have "users_id_seq db \<notin> set (map id_user (users_tbl db))"
    using assms(2) by (auto simp: list_all_iff)
  moreover have "filter (\<lambda>u. email u = e \<or> username u = n) (users_tbl db) = []"
    using assms(1) by (auto simp: filter_empty_conv)
  moreover have "n \<notin> set (map username (users_tbl db))" "e \<notin> set (map email (users_tbl db))"
    using assms(1) by auto
  ultimately show ?thesis
    by (simp add: register_def driver_defs select_existing_user_def insert_user_def Let_def
        user_body_def)
qed

lemma register_created:
  assumes "result (register gen salt flt sess data db) = Response 201 (msg ''registered'')"
  shows "\<exists>n e p. getitem data ''username'' = Inr n \<and> getitem data ''email'' = Inr e
      \<and> getitem data ''password'' = Inr p
      \<and> (\<forall>u\<in>set (users_tbl db). email u \<noteq> e \<and> username u \<noteq> n)
      \<and> db_after (register gen salt flt sess data db)
          = db\<lparr>users_tbl := users_tbl db @ [User (users_id_seq db) n e (gen salt p)],
               users_id_seq := users_id_seq db + 1\<rparr>"
proof -
  have valid: "\<not> falsy data" "all_in [''username'', ''email'', ''password''] data = Inr True"
    using assms
    by (auto simp: register_def no_conn_def err_def msg_def split: if_splits sum.splits)
  from assms valid obtain n e p where
    g: "getitem data ''username'' = Inr n" "getitem data ''email'' = Inr e"
       "getitem data ''password'' = Inr p"
    by (cases "getitem data ''username''"; cases "getitem data ''email''";
        cases "getitem data ''password''")
      (auto simp: register_def driver_defs err_def msg_def split: if_splits)
  let ?hit = "filter (\<lambda>u. email u = e \<or> username u = n) (users_tbl db)"
  have f0: "flt \<noteq> Some (Lost 0)" "flt \<noteq> Some (Refused 0)"
    using assms valid g
    by (auto simp: register_def driver_defs err_def msg_def split: if_splits)
  have hit: "?hit = []"
    using assms valid g f0
    by (auto simp: register_def driver_defs err_def msg_def select_existing_user_def
        split: if_splits list.splits)
  then have fresh: "\<forall>u\<in>set (users_tbl db). email u \<noteq> e \<and> username u \<noteq> n"
    by (auto simp: filter_empty_conv)
  have f1: "flt \<noteq> Some (Lost 1)" "flt \<noteq> Some (Refused 1)"
    using assms valid g f0 hit
    by (auto simp: register_def driver_defs err_def msg_def select_existing_user_def
        split: if_splits)
  have ins: "snd (insert_user n e (gen salt p) db) = Inr ()"
    using assms valid g f0 f1 hit
    by (auto simp: register_def driver_defs err_def msg_def select_existing_user_def
        split: if_splits sum.splits prod.splits)
  then have "fst (insert_user n e (gen salt p) db)
      = db\<lparr>users_tbl := users_tbl db @ [User (users_id_seq db) n e (gen salt p)],
           users_id_seq := users_id_seq db + 1\<rparr>"
    by (auto simp: insert_user_def Let_def split: if_splits)
  then have "db_after (register gen salt flt sess data db)
          = db\<lparr>users_tbl := users_tbl db @ [User (users_id_seq db) n e (gen salt p)],
               users_id_seq := users_id_seq db + 1\<rparr>"
    using valid g f0 f1 hit ins
    by (simp add: register_def driver_defs select_existing_user_def)
  then show ?thesis using g fresh by blast
qed

lemma register_conflict:
  assumes "has_key ''username'' data" "has_key ''email'' data" "has_key ''password'' data"
    and "getitem data ''email'' = Inr e" "getitem data ''username'' = Inr n"
    and "u \<in> set (users_tbl db)" "email u = e \<or> username u = n"
  shows "register gen salt None sess data db
     = \<lparr>result = Response 400 (err ''User already exists''), db_after = db,
        session_after = sess, conn_open = False\<rparr>"
proof -
  have "u \<in> set (filter (\<lambda>u. email u = e \<or> username u = n) (users_tbl db))"
    using assms(6,7) by simp
  then have "filter (\<lambda>u. email u = e \<or> username u = n) (users_tbl db) \<noteq> []"
    by (metis empty_iff empty_set)
  moreover have "\<not> falsy data" "all_in [''username'', ''email'', ''password''] data = Inr True"
    using assms(1-3) by (rule register_guard)+
  moreover obtain p where "getitem data ''password'' = Inr p"
    using has_key_getitem [OF assms(3)] by auto
  ultimately show ?thesis
    using assms(4,5)
    by (auto simp: register_def driver_defs select_existing_user_def split: list.splits)
qed


section \<open>The constraints are kept\<close>

text \<open>
  The empty store satisfies the constraints of the schema, and every handler, with any
  session, body and backend fault, leaves a store that satisfies them when it found one.
\<close>

lemma wf_init_db: "wf_db init_db"
  by (simp add: wf_db_def init_db_def)

lemma wf_demo_db: "wf_db demo_db"
  by (simp add: wf_db_def demo_db_def)

lemma wf_keep_seqs:
  assumes "wf_db d" "users_id_seq d \<le> users_id_seq w" "notes_id_seq d \<le> notes_id_seq w"
  shows "wf_db (keep_seqs w d)"
proof -
  have "\<forall>u\<in>set (users_tbl d). id_user u < users_id_seq w"
    using assms(1,2) by (fastforce simp: wf_db_def list_all_iff)
  moreover have "\<forall>n\<in>set (notes_tbl d). id_note n < notes_id_seq w"
    using assms(1,3) by (fastforce simp: wf_db_def list_all_iff)
  ultimately show ?thesis
    using assms(1) by (simp add: wf_db_def keep_seqs_def list_all_iff)
qed

lemma wf_insert_user:
  assumes "wf_db db"
  shows "wf_db (fst (insert_user n e h db))"
proof -
  have lt: "\<forall>u\<in>set (users_tbl db). id_user u < users_id_seq db + 1"
    using assms by (fastforce simp: wf_db_def list_all_iff)
  have bump: "wf_db (db\<lparr>users_id_seq := users_id_seq db + 1\<rparr>)"
    using assms lt by (simp add: wf_db_def list_all_iff)
  show ?thesis
  proof (cases "users_id_seq db \<in> set (map id_user (users_tbl db))
      \<or> n \<in> set (map username (users_tbl db)) \<or> e \<in> set (map email (users_tbl db))")
    case True
    then have "fst (insert_user n e h db) = db\<lparr>users_id_seq := users_id_seq db + 1\<rparr>"
      by (auto simp: insert_user_def Let_def)
    then show ?thesis using bump by simp
  next
    case False
    then have eq: "fst (insert_user n e h db)
        = db\<lparr>users_id_seq := users_id_seq db + 1,
             users_tbl := users_tbl db @ [User (users_id_seq db) n e h]\<rparr>"
      by (auto simp: insert_user_def Let_def)
    have fk: "\<forall>x\<in>set (notes_tbl db). user_id x \<in> set (map id_user (users_tbl db))"
      using assms by (simp add: wf_db_def list_all_iff)
    show ?thesis
      unfolding eq using assms lt False fk
      by (simp add: wf_db_def list_all_iff)
  qed
qed

lemma wf_insert_note:
  assumes "wf_db db"
  shows "wf_db (fst (insert_note t c uid db))"
proof -
  have lt: "\<forall>x\<in>set (notes_tbl db). id_note x < notes_id_seq db + 1"
    using assms by (fastforce simp: wf_db_def list_all_iff)
  have bump: "wf_db (db\<lparr>notes_id_seq := notes_id_seq db + 1\<rparr>)"
    using assms lt by (simp add: wf_db_def list_all_iff)
  show ?thesis
  proof (cases "notes_id_seq db \<in> set (map id_note (notes_tbl db))
      \<or> uid \<notin> set (map id_user (users_tbl db))")
    case True
    then have "fst (insert_note t c uid db) = db\<lparr>notes_id_seq := notes_id_seq db + 1\<rparr>"
      by (auto simp: insert_note_def Let_def)
    then show ?thesis using bump by simp
  next
    case False
    then have eq: "fst (insert_note t c uid db)
        = db\<lparr>notes_id_seq := notes_id_seq db + 1,
             notes_tbl := notes_tbl db @ [Note (notes_id_seq db) t c uid]\<rparr>"
      by (auto simp: insert_note_def Let_def)
    show ?thesis
      unfolding eq using assms lt False
      by (simp add: wf_db_def list_all_iff)
  qed
qed

lemma map_key_update:
  "map f (map (\<lambda>n. if P n then g n else n) xs) = map f xs" if "\<And>n. f (g n) = f n"
  using that by (induction xs) auto

lemma wf_update_notes:
  assumes "wf_db db"
  shows "wf_db (fst (update_notes t c nid uid db))"
proof -
  let ?g = "\<lambda>n. Note (id_note n) t c (user_id n)"
  let ?P = "\<lambda>n. id_note n = nid \<and> user_id n = uid"
  let ?ys = "map (\<lambda>n. if ?P n then ?g n else n) (notes_tbl db)"
  have i: "map id_note ?ys = map id_note (notes_tbl db)"
    by (rule map_key_update) simp
  have u: "map user_id ?ys = map user_id (notes_tbl db)"
    by (rule map_key_update) simp
  have "set (map id_note ?ys) = set (map id_note (notes_tbl db))"
    "set (map user_id ?ys) = set (map user_id (notes_tbl db))"
    by (simp_all only: i u)
  then have a: "\<forall>y\<in>set ?ys. id_note y < notes_id_seq db"
    and b: "\<forall>y\<in>set ?ys. user_id y \<in> set (map id_user (users_tbl db))"
    using assms by (auto simp: wf_db_def list_all_iff)
  have d: "distinct (map id_note ?ys)"
    using assms by (simp only: i) (simp add: wf_db_def)
  have eq: "fst (update_notes t c nid uid db) = db\<lparr>notes_tbl := ?ys\<rparr>"
    by (simp add: update_notes_def)
  show ?thesis
    unfolding eq wf_db_def list_all_iff using assms a b d
    by (simp add: wf_db_def list_all_iff)
qed

lemma wf_delete_notes:
  assumes "wf_db db"
  shows "wf_db (fst (delete_notes nid uid db))"
  using assms by (simp add: wf_db_def delete_notes_def list_all_iff distinct_map_filter)

lemma keep_seqs_same [simp]: "keep_seqs d d = d"
  by (simp add: keep_seqs_def)

lemma seqs_insert_user:
  "users_id_seq db \<le> users_id_seq (fst (insert_user n e h db))"
  "notes_id_seq (fst (insert_user n e h db)) = notes_id_seq db"
  by (simp_all add: insert_user_def Let_def)

lemma seqs_insert_note:
  "notes_id_seq db \<le> notes_id_seq (fst (insert_note t c uid db))"
  "users_id_seq (fst (insert_note t c uid db)) = users_id_seq db"
  by (simp_all add: insert_note_def Let_def)

lemma keep_seqs_twice [simp]: "keep_seqs (keep_seqs w d) d = keep_seqs w d"
  by (simp add: keep_seqs_def)

lemma wf_keep_seqs_insert_user:
  "wf_db db \<Longrightarrow> wf_db (keep_seqs (fst (insert_user n e h db)) db)"
  by (rule wf_keep_seqs) (simp_all add: seqs_insert_user)

lemma wf_keep_seqs_insert_note:
  "wf_db db \<Longrightarrow> wf_db (keep_seqs (fst (insert_note t c uid db)) db)"
  by (rule wf_keep_seqs) (simp_all add: seqs_insert_note)

lemma wf_register:
  assumes "wf_db db"
  shows "wf_db (db_after (register gen salt flt sess data db))"
  using assms
  by (cases "getitem data ''password''"; cases "getitem data ''email''";
      cases "getitem data ''username''")
    (auto simp: register_def execute_def get_db_def commit_def rollback_def except_rollback_def
      close_conn_def visible_def leave_def finally_close_def no_conn_def
      select_existing_user_def wf_insert_user wf_keep_seqs_insert_user
      split: prod.splits sum.splits)

lemma wf_create_note:
  assumes "wf_db db"
  shows "wf_db (db_after (create_note flt sess data db))"
  using assms
  by (cases sess; cases "getitem data ''title''"; cases "getitem data ''content''")
    (auto simp: create_note_def execute_def get_db_def commit_def close_conn_def
      visible_def leave_def finally_close_def no_conn_def
      wf_insert_note wf_keep_seqs_insert_note
      split: prod.splits sum.splits)

lemma seqs_update_notes [simp]: "keep_seqs (fst (update_notes t c nid uid db)) db = db"
  by (simp add: keep_seqs_def update_notes_def)

lemma seqs_delete_notes [simp]: "keep_seqs (fst (delete_notes nid uid db)) db = db"
  by (simp add: keep_seqs_def delete_notes_def)

lemma wf_update_note:
  assumes "wf_db db"
  shows "wf_db (db_after (update_note flt sess nid data db))"
  using assms
  by (cases sess; cases "getitem data ''title''"; cases "getitem data ''content''")
    (auto simp: update_note_def execute_def get_db_def commit_def close_conn_def
      visible_def leave_def finally_close_def no_conn_def wf_update_notes
      split: sum.splits)

lemma wf_delete_note:
  assumes "wf_db db"
  shows "wf_db (db_after (delete_note flt sess nid db))"
  using assms
  by (cases sess)
    (auto simp: delete_note_def execute_def get_db_def commit_def close_conn_def
      visible_def leave_def finally_close_def no_conn_def wf_delete_notes
      split: sum.splits)

lemma readers_keep_db:
  "db_after (login check flt sess data db) = db"
  "db_after (logout sess db) = db"
  "db_after (get_notes flt sess db) = db"
  "db_after (get_single_note flt sess nid db) = db"
  "db_after (health sess db) = db"
  "db_after (list_tables flt sess db) = db"
  by (auto simp: login_def logout_def get_notes_def get_single_note_def health_def
      list_tables_def driver_defs select_user_by_email_def select_notes_of_def select_note_def
      select_tables_def split: option.splits sum.splits list.splits)

section \<open>Ownership\<close>

text \<open>
  C1: a note owned by someone else. A delete by the caller answers 404; so does an update
  that carries a title and a content; and whatever the body of the update and whether the
  backend fails or not, the store is left exactly as it was.
\<close>

theorem foreign_note_not_found_and_unchanged:
  assumes "distinct (map id_note (notes_tbl db))"
    and "n \<in> set (notes_tbl db)"
    and "user_id n \<noteq> uid"
  shows "result (delete_note None (Some uid) (id_note n) db) = Response 404 (err ''Not found'')
    \<and> db_after (delete_note flt (Some uid) (id_note n) db) = db
    \<and> (getitem data ''title'' = Inr t \<and> getitem data ''content'' = Inr c \<longrightarrow>
         result (update_note None (Some uid) (id_note n) data db) = Response 404 (err ''Not found''))
    \<and> db_after (update_note flt (Some uid) (id_note n) data db) = db
    \<and> n \<in> set (notes_tbl (db_after (update_note flt (Some uid) (id_note n) data db)))
    \<and> n \<in> set (notes_tbl (db_after (delete_note flt (Some uid) (id_note n) db)))"
proof -
  have nm: "\<forall>m\<in>set (notes_tbl db). \<not> (id_note m = id_note n \<and> user_id m = uid)"
    using assms by (rule foreign_no_match)
  show ?thesis
    using delete_no_match [OF nm] update_no_match [OF nm] assms(2) by simp
qed

theorem foreign_note_not_found_and_unchanged_witness:
  "result (delete_note None (Some 2) 1 demo_db) = Response 404 (err ''Not found'')
   \<and> db_after (delete_note None (Some 2) 1 demo_db) = demo_db
   \<and> result (update_note None (Some 2) 1 (note_body ''X'' ''Y'') demo_db)
       = Response 404 (err ''Not found'')
   \<and> db_after (update_note None (Some 2) 1 (note_body ''X'' ''Y'') demo_db) = demo_db
   \<and> Note 1 ''T1'' ''C1'' 1 \<in> set (notes_tbl (db_after (update_note None (Some 2) 1 (note_body ''X'' ''Y'') demo_db)))"
  using foreign_note_not_found_and_unchanged
    [of demo_db "Note 1 ''T1'' ''C1'' 1" 2 None "note_body ''X'' ''Y''" "''X''" "''Y''"]
  by (simp add: demo_defs)


text \<open>
  C2: reading one note answers 404 exactly when no note with that id belongs to the
  caller, and the whole outcome for an id nobody has equals the outcome for an id that
  belongs to another user.
\<close>

theorem single_note_not_found_iff:
  "(status_of (result (get_single_note None (Some uid) nid db)) = Some 404)
     = (\<not> (\<exists>n\<in>set (notes_tbl db). id_note n = nid \<and> user_id n = uid))
   \<and> ((\<forall>n\<in>set (notes_tbl db). id_note n \<noteq> missing)
        \<and> distinct (map id_note (notes_tbl db)) \<and> m \<in> set (notes_tbl db) \<and> user_id m \<noteq> uid
       \<longrightarrow> get_single_note None (Some uid) missing db
           = get_single_note None (Some uid) (id_note m) db
         \<and> result (get_single_note None (Some uid) missing db) = Response 404 (err ''Not found''))"
proof -
  have a: "(status_of (result (get_single_note None (Some uid) nid db)) = Some 404)
     = (\<not> (\<exists>n\<in>set (notes_tbl db). id_note n = nid \<and> user_id n = uid))"
  proof (cases "filter (\<lambda>n. id_note n = nid \<and> user_id n = uid) (notes_tbl db)")
    case Nil
    then show ?thesis
      by (simp add: get_single_note_def driver_defs select_note_def filter_empty_conv)
  next
    case (Cons z zs)
    then have "z \<in> set (filter (\<lambda>n. id_note n = nid \<and> user_id n = uid) (notes_tbl db))"
      by simp
    then have "\<exists>n\<in>set (notes_tbl db). id_note n = nid \<and> user_id n = uid"
      by auto
    then show ?thesis
      using Cons by (simp add: get_single_note_def driver_defs select_note_def)
  qed
  have b: "get_single_note None (Some uid) k db
       = \<lparr>result = Response 404 (err ''Not found''), db_after = db,
          session_after = Some uid, conn_open = False\<rparr>"
    if "\<forall>n\<in>set (notes_tbl db). \<not> (id_note n = k \<and> user_id n = uid)" for k
    using that by (simp add: get_single_note_def driver_defs select_note_def)
  show ?thesis
    using a b [of missing] b [OF foreign_no_match, of m] by auto
qed

theorem single_note_not_found_iff_witness:
  "status_of (result (get_single_note None (Some 2) 1 demo_db)) = Some 404
   \<and> status_of (result (get_single_note None (Some 1) 1 demo_db)) = Some 200
   \<and> get_single_note None (Some 2) 99 demo_db = get_single_note None (Some 2) 1 demo_db
   \<and> result (get_single_note None (Some 2) 99 demo_db) = Response 404 (err ''Not found'')"
  using single_note_not_found_iff [of 2 1 demo_db 99 "Note 1 ''T1'' ''C1'' 1"]
  by (simp add: demo_defs get_single_note_def driver_defs select_note_def)

text \<open>
  C7: when a delete answers 200, a get of the same note by the same caller, on the store
  the delete left, answers 404.
\<close>

theorem get_after_delete_not_found:
  assumes "status_of (result (delete_note None (Some uid) nid db)) = Some 200"
  shows "result (delete_note None (Some uid) nid db) = Response 200 (msg ''deleted'')
    \<and> result (get_single_note None (Some uid) nid
                (db_after (delete_note None (Some uid) nid db)))
        = Response 404 (err ''Not found'')"
  using assms
  by (simp add: delete_note_def get_single_note_def driver_defs delete_notes_def select_note_def
      split: if_splits)

theorem get_after_delete_not_found_witness:
  "status_of (result (delete_note None (Some 1) 3 demo_db)) = Some 200
   \<and> result (get_single_note None (Some 1) 3 (db_after (delete_note None (Some 1) 3 demo_db)))
       = Response 404 (err ''Not found'')
   \<and> result (get_single_note None (Some 1) 3 demo_db) = Response 200 (note_json 3 ''T3'' ''C3'')"
proof -
  have h: "status_of (result (delete_note None (Some 1) 3 demo_db)) = Some 200"
    by (simp add: delete_note_def driver_defs delete_notes_def demo_defs)
  have g: "result (get_single_note None (Some 1) 3 demo_db) = Response 200 (note_json 3 ''T3'' ''C3'')"
    by (simp add: get_single_note_def driver_defs select_note_def demo_defs)
  show ?thesis
    using h g get_after_delete_not_found [OF h] by simp
qed

section \<open>Session checks\<close>

text \<open>
  C3: without a session, \<^verbatim>\<open>GET /notes\<close> answers 200 with the empty list and touches
  nothing, while creating, updating, deleting and reading one note answer 401.
\<close>

theorem anonymous_listing_is_empty_not_unauthorized:
  "result (get_notes flt None db) = Response 200 (JList [])
   \<and> db_after (get_notes flt None db) = db
   \<and> result (create_note flt None data db) = Response 401 (err ''Unauthorized'')
   \<and> result (update_note flt None nid data db) = Response 401 (err ''Unauthorized'')
   \<and> result (delete_note flt None nid db) = Response 401 (err ''Unauthorized'')
   \<and> result (get_single_note flt None nid db) = Response 401 (err ''Unauthorized'')"
  by (simp add: get_notes_def create_note_def update_note_def delete_note_def
      get_single_note_def no_conn_def)

section \<open>Input validation\<close>

text \<open>
  A registration whose body is false for Python (\<^verbatim>\<open>None\<close>, \<^verbatim>\<open>false\<close>, 0, an empty string,
  list or dict), or is a dict that lacks one of username, email and password, answers
  400 with "Invalid input", opens no connection and leaves the store as it was.
\<close>

lemma register_object_missing_field:
  assumes "falsy data
      \<or> (\<exists>d. data = BObj d \<and> (map_of d ''username'' = None \<or> map_of d ''email'' = None
            \<or> map_of d ''password'' = None))"
  shows "register gen salt flt sess data db
     = \<lparr>result = Response 400 (err ''Invalid input''), db_after = db, session_after = sess,
        conn_open = False\<rparr>"
  using assms by (auto simp: register_def no_conn_def)

text \<open>Whatever the body and the fault, a registration that does not answer 201 adds no user.\<close>

lemma register_adds_user_only_with_201:
  assumes "result (register gen salt flt sess data db) \<noteq> Response 201 (msg ''registered'')"
  shows "users_tbl (db_after (register gen salt flt sess data db)) = users_tbl db"
  using assms
  by (cases "getitem data ''password''"; cases "getitem data ''email''";
      cases "getitem data ''username''")
    (auto simp: register_def driver_defs select_existing_user_def
      split: prod.splits sum.splits if_splits)

text \<open>
  C8, evaluated on bodies that lack the three fields and are not dicts. The number 5 and
  \<^verbatim>\<open>true\<close> are not iterable: the check of the input itself raises \<^verbatim>\<open>TypeError\<close>. A list of
  the three names, and a string in which the three names occur, pass the check, and
  \<^verbatim>\<open>data["password"]\<close> raises \<^verbatim>\<open>TypeError\<close>. No response with status 400 is returned; no
  connection is opened and the store is as it was.
\<close>

theorem register_non_object_body_raises:
  "result (register demo_gen ''s3'' None None (BNum 5) demo_db)
     = Raised (TypeError ''argument of type int is not iterable'')
   \<and> result (register demo_gen ''s3'' None None (BBool True) demo_db)
     = Raised (TypeError ''argument of type bool is not iterable'')
   \<and> result (register demo_gen ''s3'' None None
        (BArr [JStr ''username'', JStr ''email'', JStr ''password'']) demo_db)
     = Raised (TypeError ''list indices must be integers or slices, not str'')
   \<and> result (register demo_gen ''s3'' None None (BStr ''username email password'') demo_db)
     = Raised (TypeError ''string indices must be integers'')
   \<and> db_after (register demo_gen ''s3'' None None (BNum 5) demo_db) = demo_db
   \<and> db_after (register demo_gen ''s3'' None None
        (BArr [JStr ''username'', JStr ''email'', JStr ''password'']) demo_db) = demo_db"
  by (simp add: register_def no_conn_def)

text \<open>
  C10: with a session, \<^verbatim>\<open>POST /notes\<close> never answers 400: it answers 201 or an exception
  leaves it. A body without \<^verbatim>\<open>title\<close> raises \<^verbatim>\<open>KeyError\<close> for it, a body with a title and
  without \<^verbatim>\<open>content\<close> raises \<^verbatim>\<open>KeyError\<close> for that, the body \<^verbatim>\<open>None\<close> raises
  \<^verbatim>\<open>TypeError\<close>, and so does every body that is not a dict; in each case nothing is stored.
\<close>

theorem create_note_does_not_validate:
  "status_of (result (create_note flt (Some uid) data db)) \<noteq> Some 400
   \<and> (result (create_note flt (Some uid) data db) = Response 201 (msg ''note created'')
       \<or> (\<exists>x. result (create_note flt (Some uid) data db) = Raised x))
   \<and> (data = BObj d \<and> map_of d ''title'' = None \<longrightarrow>
        result (create_note flt (Some uid) data db) = Raised (KeyError ''title'')
        \<and> db_after (create_note flt (Some uid) data db) = db)
   \<and> (data = BObj d \<and> map_of d ''title'' \<noteq> None \<and> map_of d ''content'' = None \<longrightarrow>
        result (create_note flt (Some uid) data db) = Raised (KeyError ''content'')
        \<and> db_after (create_note flt (Some uid) data db) = db)
   \<and> (data = BNull \<longrightarrow>
        result (create_note flt (Some uid) data db)
          = Raised (TypeError ''NoneType object is not subscriptable'')
        \<and> db_after (create_note flt (Some uid) data db) = db)
   \<and> ((\<forall>d'. data \<noteq> BObj d') \<longrightarrow>
        (\<exists>m. result (create_note flt (Some uid) data db) = Raised (TypeError m))
        \<and> db_after (create_note flt (Some uid) data db) = db)"
  by (cases data)
    (auto simp: create_note_def driver_defs insert_note_def Let_def
      split: option.splits sum.splits)

theorem create_note_does_not_validate_witness:
  "result (create_note None (Some 1) (BObj [(''content'', ''C'')]) demo_db) = Raised (KeyError ''title'')
   \<and> result (create_note None (Some 1) (BObj [(''title'', ''T'')]) demo_db) = Raised (KeyError ''content'')
   \<and> result (create_note None (Some 1) BNull demo_db)
       = Raised (TypeError ''NoneType object is not subscriptable'')
   \<and> db_after (create_note None (Some 1) (BObj [(''content'', ''C'')]) demo_db) = demo_db"
  using create_note_does_not_validate [of None 1 "BObj [(''content'', ''C'')]" demo_db "[(''content'', ''C'')]"]
    create_note_does_not_validate [of None 1 "BObj [(''title'', ''T'')]" demo_db "[(''title'', ''T'')]"]
    create_note_does_not_validate [of None 1 BNull demo_db "[]"]
  by simp

section \<open>Connections and backend faults\<close>

text \<open>
  C9 as stated fails. When the backend fails at the statement of \<^verbatim>\<open>GET /list-tables\<close>, the
  exception leaves the handler and the connection stays open. When the insert of
  \<^verbatim>\<open>POST /notes\<close> fails (the session names a user that has no row, so the foreign key is
  violated; or the backend fails), the connection is closed and the exception leaves the
  handler. When the server closes the connection under \<^verbatim>\<open>POST /register\<close>, the rollback in
  the \<^verbatim>\<open>except\<close> block raises, and that exception leaves the handler.
\<close>

theorem list_tables_leaks_and_create_note_raises:
  "list_tables (Some (Lost 0)) None init_db
     = \<lparr>result = Raised fault, db_after = init_db, session_after = None, conn_open = True\<rparr>
   \<and> list_tables (Some (Refused 0)) None init_db
     = \<lparr>result = Raised refused, db_after = init_db, session_after = None, conn_open = True\<rparr>
   \<and> result (create_note None (Some 7) (note_body ''T'' ''C'') init_db)
       = Raised (IntegrityError ''notes_user_id_fkey'')
   \<and> result (create_note (Some (Lost 0)) (Some 1) (note_body ''T'' ''C'') demo_db) = Raised fault
   \<and> result (register demo_gen ''s3'' (Some (Lost 0)) None
        (user_body ''carol'' ''c@x.com'' ''pw3'') demo_db) = Raised conn_gone"
  by (simp add: list_tables_def create_note_def register_def driver_defs demo_defs init_db_def
      insert_note_def select_tables_def)

text \<open>
  C9, amended: the seven handlers that open their connection in front of a
  \<^verbatim>\<open>try ... finally\<close> leave no connection open, whatever the session, the body, the store
  and the fault of the backend. In six of them an exception raised by the statement
  leaves the handler, after the connection is closed. \<^verbatim>\<open>register\<close> catches it: when the
  server refused the statement the rollback succeeds and the answer is 500 with the
  text of the exception; when the server closed the connection the rollback raises and
  that exception leaves \<^verbatim>\<open>register\<close>. A registration with the three fields returns a
  response or lets the exception of the rollback leave.
\<close>

theorem try_finally_handlers_release_connection:
  "\<not> conn_open (register gen salt flt sess data db)
   \<and> \<not> conn_open (login check flt sess data db)
   \<and> \<not> conn_open (create_note flt sess data db)
   \<and> \<not> conn_open (get_notes flt sess db)
   \<and> \<not> conn_open (update_note flt sess nid data db)
   \<and> \<not> conn_open (delete_note flt sess nid db)
   \<and> \<not> conn_open (get_single_note flt sess nid db)
   \<and> (has_key ''username'' data \<and> has_key ''email'' data \<and> has_key ''password'' data \<longrightarrow>
        result (register gen salt (Some (Refused 0)) sess data db)
          = Response 500 (err (str_exn refused))
        \<and> result (register gen salt (Some (Lost 0)) sess data db) = Raised conn_gone
        \<and> ((\<exists>s b. result (register gen salt flt sess data db) = Response s b)
            \<or> result (register gen salt flt sess data db) = Raised conn_gone))
   \<and> (has_key ''email'' data \<and> has_key ''password'' data \<longrightarrow>
        result (login check (Some (Lost 0)) sess data db) = Raised fault
        \<and> result (login check (Some (Refused 0)) sess data db) = Raised refused)
   \<and> (has_key ''title'' data \<and> has_key ''content'' data \<longrightarrow>
        result (create_note (Some (Lost 0)) (Some uid) data db) = Raised fault
        \<and> result (create_note (Some (Refused 0)) (Some uid) data db) = Raised refused
        \<and> result (update_note (Some (Lost 0)) (Some uid) nid data db) = Raised fault
        \<and> result (update_note (Some (Refused 0)) (Some uid) nid data db) = Raised refused)
   \<and> result (get_notes (Some (Lost 0)) (Some uid) db) = Raised fault
   \<and> result (get_notes (Some (Refused 0)) (Some uid) db) = Raised refused
   \<and> result (delete_note (Some (Lost 0)) (Some uid) nid db) = Raised fault
   \<and> result (delete_note (Some (Refused 0)) (Some uid) nid db) = Raised refused
   \<and> result (get_single_note (Some (Lost 0)) (Some uid) nid db) = Raised fault
   \<and> result (get_single_note (Some (Refused 0)) (Some uid) nid db) = Raised refused"
proof -
  have closes: "\<not> conn_open (finally_close s cr)" "\<not> conn_open (no_conn s d r)" for s cr d r
    by (simp_all add: finally_close_def leave_def close_conn_def no_conn_def)
  have c1: "\<not> conn_open (register gen salt flt sess data db)"
    by (simp add: register_def closes split: sum.splits prod.splits)
  have c2: "\<not> conn_open (login check flt sess data db)"
    by (simp add: login_def closes split: sum.splits prod.splits option.splits)
  have c3: "\<not> conn_open (create_note flt sess data db)"
    "\<not> conn_open (get_notes flt sess db)"
    "\<not> conn_open (update_note flt sess nid data db)"
    "\<not> conn_open (delete_note flt sess nid db)"
    "\<not> conn_open (get_single_note flt sess nid db)"
    by (simp_all add: create_note_def get_notes_def update_note_def delete_note_def
        get_single_note_def closes split: option.splits)
  have f1: "result (register gen salt (Some (Refused 0)) sess data db)
          = Response 500 (err (str_exn refused))
        \<and> result (register gen salt (Some (Lost 0)) sess data db) = Raised conn_gone
        \<and> ((\<exists>s b. result (register gen salt flt sess data db) = Response s b)
            \<or> result (register gen salt flt sess data db) = Raised conn_gone)"
    if h: "has_key ''username'' data \<and> has_key ''email'' data \<and> has_key ''password'' data"
  proof -
    obtain n e p where g: "getitem data ''username'' = Inr n" "getitem data ''email'' = Inr e"
      "getitem data ''password'' = Inr p"
      using has_key_getitem [of "''username''" data] has_key_getitem [of "''email''" data]
        has_key_getitem [of "''password''" data] h by auto
    have v: "\<not> falsy data" "all_in [''username'', ''email'', ''password''] data = Inr True"
      using h has_key_truthy [of "''username''" data] by (simp_all add: has_key_contains)
    have "result (register gen salt (Some (Refused 0)) sess data db)
          = Response 500 (err (str_exn refused))"
      using g v by (simp add: register_def driver_defs)
    moreover have "result (register gen salt (Some (Lost 0)) sess data db) = Raised conn_gone"
      using g v by (simp add: register_def driver_defs)
    moreover have "(\<exists>s b. result (register gen salt flt sess data db) = Response s b)
            \<or> result (register gen salt flt sess data db) = Raised conn_gone"
      using g v
      by (simp add: register_def driver_defs select_existing_user_def
          split: prod.splits sum.splits)
    ultimately show ?thesis by simp
  qed
  have f2: "result (login check (Some (Lost 0)) sess data db) = Raised fault
        \<and> result (login check (Some (Refused 0)) sess data db) = Raised refused"
    if h: "has_key ''email'' data \<and> has_key ''password'' data"
  proof -
    obtain e where "getitem data ''email'' = Inr e"
      using has_key_getitem [of "''email''" data] h by auto
    moreover have "\<not> falsy data" "all_in [''email'', ''password''] data = Inr True"
      using h has_key_truthy [of "''email''" data] by (simp_all add: has_key_contains)
    ultimately show ?thesis
      by (simp add: login_def driver_defs)
  qed
  have f3: "result (create_note (Some (Lost 0)) (Some uid) data db) = Raised fault
        \<and> result (create_note (Some (Refused 0)) (Some uid) data db) = Raised refused
        \<and> result (update_note (Some (Lost 0)) (Some uid) nid data db) = Raised fault
        \<and> result (update_note (Some (Refused 0)) (Some uid) nid data db) = Raised refused"
    if h: "has_key ''title'' data \<and> has_key ''content'' data"
  proof -
    obtain t c where "getitem data ''title'' = Inr t" "getitem data ''content'' = Inr c"
      using has_key_getitem [of "''title''" data] has_key_getitem [of "''content''" data] h
      by auto
    then show ?thesis
      by (simp add: create_note_def update_note_def driver_defs)
  qed
  have f4: "result (get_notes (Some (Lost 0)) (Some uid) db) = Raised fault"
    "result (get_notes (Some (Refused 0)) (Some uid) db) = Raised refused"
    "result (delete_note (Some (Lost 0)) (Some uid) nid db) = Raised fault"
    "result (delete_note (Some (Refused 0)) (Some uid) nid db) = Raised refused"
    "result (get_single_note (Some (Lost 0)) (Some uid) nid db) = Raised fault"
    "result (get_single_note (Some (Refused 0)) (Some uid) nid db) = Raised refused"
    by (simp_all add: get_notes_def delete_note_def get_single_note_def driver_defs)
  show ?thesis
    using c1 c2 c3 f1 f2 f3 f4 by (intro conjI impI) simp_all
qed

theorem try_finally_handlers_release_connection_witness:
  "\<not> conn_open (create_note (Some (Lost 0)) (Some 1) (note_body ''T'' ''C'') demo_db)
   \<and> result (create_note (Some (Lost 0)) (Some 1) (note_body ''T'' ''C'') demo_db) = Raised fault
   \<and> result (update_note (Some (Refused 0)) (Some 1) 1 (note_body ''T'' ''C'') demo_db)
       = Raised refused
   \<and> result (login demo_check (Some (Lost 0)) None (login_body ''a@x.com'' ''pw1'') demo_db)
       = Raised fault
   \<and> \<not> conn_open (login demo_check (Some (Lost 0)) None (login_body ''a@x.com'' ''pw1'') demo_db)
   \<and> result (register demo_gen ''s3'' (Some (Refused 0)) None
        (user_body ''carol'' ''c@x.com'' ''pw3'') demo_db)
       = Response 500 (err (str_exn refused))
   \<and> result (register demo_gen ''s3'' (Some (Lost 0)) None
        (user_body ''carol'' ''c@x.com'' ''pw3'') demo_db) = Raised conn_gone
   \<and> \<not> conn_open (register demo_gen ''s3'' (Some (Lost 0)) None
        (user_body ''carol'' ''c@x.com'' ''pw3'') demo_db)"
  using try_finally_handlers_release_connection
    [where flt = "Some (Lost 0)" and sess = "Some 1" and data = "note_body ''T'' ''C''"
      and db = demo_db and uid = 1 and nid = 1]
    try_finally_handlers_release_connection
    [where flt = "Some (Lost 0)" and sess = None and data = "login_body ''a@x.com'' ''pw1''"
      and db = demo_db and check = demo_check]
    try_finally_handlers_release_connection
    [where flt = "Some (Lost 0)" and sess = None
      and data = "user_body ''carol'' ''c@x.com'' ''pw3''"
      and db = demo_db and gen = demo_gen and salt = "''s3''"]
  by (simp add: note_body_def login_body_def user_body_def)

section \<open>Credentials\<close>



text \<open>
  C5: after a registration that answered 201, a second registration whose body has the
  three fields and repeats the email or the username answers 400 with "User already
  exists" and leaves the store as the first one left it, where exactly one user has that
  email or that username.
\<close>

theorem second_registration_conflicts:
  assumes "db1 = db_after (register gen salt None sess data db)"
    and "result (register gen salt None sess data db) = Response 201 (msg ''registered'')"
    and "has_key ''username'' data2" and "has_key ''email'' data2" and "has_key ''password'' data2"
    and "getitem data2 ''email'' = getitem data ''email''
         \<or> getitem data2 ''username'' = getitem data ''username''"
  shows "result (register gen2 salt2 None sess2 data2 db1) = Response 400 (err ''User already exists'')
    \<and> db_after (register gen2 salt2 None sess2 data2 db1) = db1
    \<and> (\<exists>n e. getitem data ''username'' = Inr n \<and> getitem data ''email'' = Inr e
         \<and> length (filter (\<lambda>u. email u = e \<or> username u = n)
              (users_tbl (db_after (register gen2 salt2 None sess2 data2 db1)))) = 1)"
proof -
  from register_created [OF assms(2)] obtain n e p where
    g: "getitem data ''username'' = Inr n" "getitem data ''email'' = Inr e"
    and fresh: "\<forall>u\<in>set (users_tbl db). email u \<noteq> e \<and> username u \<noteq> n"
    and d1: "db1 = db\<lparr>users_tbl := users_tbl db @ [User (users_id_seq db) n e (gen salt p)],
               users_id_seq := users_id_seq db + 1\<rparr>"
    unfolding assms(1) by blast
  obtain n2 e2 where g2: "getitem data2 ''username'' = Inr n2" "getitem data2 ''email'' = Inr e2"
    using has_key_getitem [OF assms(3)] has_key_getitem [OF assms(4)] by auto
  let ?u = "User (users_id_seq db) n e (gen salt p)"
  have in1: "?u \<in> set (users_tbl db1)"
    by (simp add: d1)
  have same: "email ?u = e2 \<or> username ?u = n2"
    using assms(6) g g2 by auto
  have r: "register gen2 salt2 None sess2 data2 db1
     = \<lparr>result = Response 400 (err ''User already exists''), db_after = db1,
        session_after = sess2, conn_open = False\<rparr>"
    using register_conflict [OF assms(3,4,5) g2(2) g2(1) in1 same] .
  have "filter (\<lambda>u. email u = e \<or> username u = n) (users_tbl db) = []"
    using fresh by (auto simp: filter_empty_conv)
  then have "length (filter (\<lambda>u. email u = e \<or> username u = n) (users_tbl db1)) = 1"
    by (simp add: d1)
  then show ?thesis
    using r g by simp
qed

theorem second_registration_conflicts_witness:
  "result (register demo_gen ''s3'' None None (user_body ''carol'' ''c@x.com'' ''pw3'') demo_db)
     = Response 201 (msg ''registered'')
   \<and> result (register demo_gen ''s4'' None None (user_body ''carla'' ''c@x.com'' ''pw4'')
        (db_after (register demo_gen ''s3'' None None (user_body ''carol'' ''c@x.com'' ''pw3'') demo_db)))
     = Response 400 (err ''User already exists'')
   \<and> length (filter (\<lambda>u. email u = ''c@x.com'' \<or> username u = ''carol'')
        (users_tbl (db_after (register demo_gen ''s4'' None None (user_body ''carla'' ''c@x.com'' ''pw4'')
          (db_after (register demo_gen ''s3'' None None (user_body ''carol'' ''c@x.com'' ''pw3'') demo_db))))))
     = 1"
proof -
  have first: "result (register demo_gen ''s3'' None None (user_body ''carol'' ''c@x.com'' ''pw3'') demo_db)
     = Response 201 (msg ''registered'')"
    by (simp add: register_fresh demo_db_def)
  have k: "has_key ''username'' (user_body n e p)" "has_key ''email'' (user_body n e p)"
    "has_key ''password'' (user_body n e p)" for n e p
    by (simp_all add: user_body_def)
  have g: "getitem (user_body n e p) ''email'' = Inr e" "getitem (user_body n e p) ''username'' = Inr n"
    for n e p
    by (simp_all add: user_body_def)
  have same: "getitem (user_body ''carla'' ''c@x.com'' ''pw4'') ''email''
        = getitem (user_body ''carol'' ''c@x.com'' ''pw3'') ''email''
      \<or> getitem (user_body ''carla'' ''c@x.com'' ''pw4'') ''username''
        = getitem (user_body ''carol'' ''c@x.com'' ''pw3'') ''username''"
    by (simp add: g)
  show ?thesis
    using first second_registration_conflicts [OF refl first k same, of demo_gen "''s4''" None]
    by (simp add: g register_fresh demo_db_def)
qed

section \<open>Listing\<close>

text \<open>
  C6: with distinct note ids, \<^verbatim>\<open>GET /notes\<close> answers 200 with the rows of exactly the
  notes the caller owns, in strictly descending order of id; for a caller who owns none
  the list is empty; and when every id is below the sequence and the caller has a row in
  \<^verbatim>\<open>users\<close>, creating A and then B puts B and then A in front of the former list.
\<close>

theorem notes_listed_newest_first:
  "(distinct (map id_note (notes_tbl db)) \<longrightarrow>
     (\<exists>rows. result (get_notes None (Some uid) db) = Response 200 (JList (map note_row rows))
        \<and> set rows = {n \<in> set (notes_tbl db). user_id n = uid}
        \<and> sorted_wrt (\<lambda>a b. id_note a > id_note b) rows))
   \<and> ((\<forall>n\<in>set (notes_tbl db). user_id n \<noteq> uid) \<longrightarrow>
        result (get_notes None (Some uid) db) = Response 200 (JList []))
   \<and> (list_all (\<lambda>n. id_note n < notes_id_seq db) (notes_tbl db)
      \<and> uid \<in> set (map id_user (users_tbl db))
      \<and> result (get_notes None (Some uid) db) = Response 200 (JList old) \<longrightarrow>
        result (get_notes None (Some uid)
           (db_after (create_note None (Some uid) (note_body tB cB)
              (db_after (create_note None (Some uid) (note_body tA cA) db)))))
        = Response 200 (JList (note_json (notes_id_seq db + 1) tB cB
                                # note_json (notes_id_seq db) tA cA # old)))"
proof (intro conjI impI)
  assume d: "distinct (map id_note (notes_tbl db))"
  let ?xs = "filter (\<lambda>n. user_id n = uid) (notes_tbl db)"
  have "distinct (map id_note ?xs)"
    using d by (simp add: distinct_map_filter)
  then have "sorted_wrt (\<lambda>a b. id_note a > id_note b) (rev (sort_key id_note ?xs))"
    by (rule sorted_desc_rev_sort_key)
  moreover have "set (rev (sort_key id_note ?xs)) = {n \<in> set (notes_tbl db). user_id n = uid}"
    by auto
  ultimately show "\<exists>rows. result (get_notes None (Some uid) db) = Response 200 (JList (map note_row rows))
        \<and> set rows = {n \<in> set (notes_tbl db). user_id n = uid}
        \<and> sorted_wrt (\<lambda>a b. id_note a > id_note b) rows"
    using get_notes_result by blast
next
  assume "\<forall>n\<in>set (notes_tbl db). user_id n \<noteq> uid"
  then show "result (get_notes None (Some uid) db) = Response 200 (JList [])"
    by (simp add: get_notes_result)
next
  assume h: "list_all (\<lambda>n. id_note n < notes_id_seq db) (notes_tbl db)
      \<and> uid \<in> set (map id_user (users_tbl db))
      \<and> result (get_notes None (Some uid) db) = Response 200 (JList old)"
  let ?i = "notes_id_seq db"
  let ?own = "\<lambda>n. user_id n = uid"
  let ?db1 = "db\<lparr>notes_tbl := notes_tbl db @ [Note ?i tA cA uid], notes_id_seq := ?i + 1\<rparr>"
  let ?db2 = "?db1\<lparr>notes_tbl := notes_tbl ?db1 @ [Note (?i + 1) tB cB uid],
                    notes_id_seq := ?i + 1 + 1\<rparr>"
  have s1: "db_after (create_note None (Some uid) (note_body tA cA) db) = ?db1"
    using h by (simp add: create_note_stores)
  have b1: "list_all (\<lambda>n. id_note n < notes_id_seq ?db1) (notes_tbl ?db1)"
    using h by (auto simp: list_all_iff)
  have u1: "uid \<in> set (map id_user (users_tbl ?db1))"
    using h by simp
  have s2: "db_after (create_note None (Some uid) (note_body tB cB) ?db1) = ?db2"
    using create_note_stores(1) [OF b1 u1] by simp
  have old: "old = map note_row (rev (sort_key id_note (filter ?own (notes_tbl db))))"
    using h by (simp add: get_notes_result)
  have le: "\<forall>x\<in>set (filter ?own (notes_tbl db)). id_note x \<le> ?i"
    using h by (auto simp: list_all_iff)
  have srt: "sort_key id_note (filter ?own (notes_tbl db) @ [Note ?i tA cA uid, Note (?i + 1) tB cB uid])
      = sort_key id_note (filter ?own (notes_tbl db)) @ [Note ?i tA cA uid, Note (?i + 1) tB cB uid]"
  proof -
    have "sort_key id_note ((filter ?own (notes_tbl db) @ [Note ?i tA cA uid]) @ [Note (?i + 1) tB cB uid])
      = sort_key id_note (filter ?own (notes_tbl db) @ [Note ?i tA cA uid]) @ [Note (?i + 1) tB cB uid]"
      using le by (intro sort_key_snoc) auto
    also have "sort_key id_note (filter ?own (notes_tbl db) @ [Note ?i tA cA uid])
      = sort_key id_note (filter ?own (notes_tbl db)) @ [Note ?i tA cA uid]"
      using le by (intro sort_key_snoc) auto
    finally show ?thesis by simp
  qed
  show "result (get_notes None (Some uid)
           (db_after (create_note None (Some uid) (note_body tB cB)
              (db_after (create_note None (Some uid) (note_body tA cA) db)))))
        = Response 200 (JList (note_json (notes_id_seq db + 1) tB cB
                                # note_json (notes_id_seq db) tA cA # old))"
    unfolding s1 s2 get_notes_result old
    using srt by (simp add: note_row_def)
qed

theorem notes_listed_newest_first_witness:
  "result (get_notes None (Some 1) demo_db)
     = Response 200 (JList [note_json 3 ''T3'' ''C3'', note_json 1 ''T1'' ''C1''])
   \<and> result (get_notes None (Some 9) demo_db) = Response 200 (JList [])
   \<and> result (get_notes None (Some 1)
        (db_after (create_note None (Some 1) (note_body ''B'' ''b'')
           (db_after (create_note None (Some 1) (note_body ''A'' ''a'') demo_db)))))
     = Response 200 (JList [note_json 5 ''B'' ''b'', note_json 4 ''A'' ''a'',
                            note_json 3 ''T3'' ''C3'', note_json 1 ''T1'' ''C1''])"
proof -
  have l: "result (get_notes None (Some 1) demo_db)
     = Response 200 (JList [note_json 3 ''T3'' ''C3'', note_json 1 ''T1'' ''C1''])"
    by (simp add: get_notes_result note_row_def demo_db_def)
  have b: "list_all (\<lambda>n. id_note n < notes_id_seq demo_db) (notes_tbl demo_db)"
    "1 \<in> set (map id_user (users_tbl demo_db))" "notes_id_seq demo_db = 4"
    "\<forall>n\<in>set (notes_tbl demo_db). user_id n \<noteq> 9"
    "distinct (map id_note (notes_tbl demo_db))"
    by (simp_all add: demo_db_def)
  show ?thesis
    using l b
      notes_listed_newest_first [where db = demo_db and uid = 1
        and old = "[note_json 3 ''T3'' ''C3'', note_json 1 ''T1'' ''C1'']"
        and tA = "''A''" and cA = "''a''" and tB = "''B''" and cB = "''b''"]
      notes_listed_newest_first [where db = demo_db and uid = 9]
    by simp
qed

end
